theory Spec2Isabelle
  imports Main "HOL-Library.Sublist"
begin

section \<open>Python string primitives used by taxadb/app.py\<close>

text \<open>
  Text is a \<open>string\<close> (a list of characters). The three separators of the
  source are the pipe of the dump files, the tab and the newline.
\<close>

definition tab :: char where
  "tab = CHR 0x09"

definition nl :: char where
  "nl = CHR 0x0A"

definition pipe :: char where
  "pipe = CHR ''|''"

text \<open>
  \<^verbatim>\<open>s.split(sep)\<close> with a one-character separator: the text is cut at every
  occurrence of the separator, so the result has one element more than there are
  separators and is never empty.
\<close>

fun py_split :: "char \<Rightarrow> string \<Rightarrow> string list" where
  "py_split sep [] = [[]]"
| "py_split sep (c # cs) =
     (if c = sep then [] # py_split sep cs
      else (case py_split sep cs of
              [] \<Rightarrow> [[c]]
            | w # ws \<Rightarrow> (c # w) # ws))"

text \<open>\<^verbatim>\<open>s.strip(c)\<close> and \<^verbatim>\<open>s.rstrip(c)\<close> for a one-character argument.\<close>

definition rstrip :: "char \<Rightarrow> string \<Rightarrow> string" where
  "rstrip c s = rev (dropWhile (\<lambda>x. x = c) (rev s))"

definition strip :: "char \<Rightarrow> string \<Rightarrow> string" where
  "strip c s = rstrip c (dropWhile (\<lambda>x. x = c) s)"

text \<open>\<^verbatim>\<open>pat in s\<close>: the pattern occurs as a contiguous piece of the text.\<close>

fun py_in :: "string \<Rightarrow> string \<Rightarrow> bool" where
  "py_in pat [] = (pat = [])"
| "py_in pat (c # cs) = (prefix pat (c # cs) \<or> py_in pat cs)"

text \<open>
  \<^verbatim>\<open>bytes.decode()\<close> decodes UTF-8 strictly and raises on an ill-formed
  sequence. Decoded text is represented by its UTF-8 bytes, so decoding is the identity
  on well-formed input; splitting at a tab and stripping a newline give the same pieces
  on the bytes as on the code points, since both separators are single ASCII bytes that
  never occur inside a multi-byte sequence.
\<close>

definition byte :: "char \<Rightarrow> nat" where
  "byte c = of_char c"

definition in_range :: "nat \<Rightarrow> nat \<Rightarrow> char \<Rightarrow> bool" where
  "in_range lo hi c = (lo \<le> byte c \<and> byte c \<le> hi)"

fun utf8_valid :: "string \<Rightarrow> bool" where
  "utf8_valid [] = True"
| "utf8_valid (b # bs) =
     (if byte b < 0x80 then utf8_valid bs
      else if in_range 0xC2 0xDF b then
        (case bs of c1 # r \<Rightarrow> in_range 0x80 0xBF c1 \<and> utf8_valid r | _ \<Rightarrow> False)
      else if in_range 0xE0 0xEF b then
        (case bs of c1 # c2 # r \<Rightarrow>
           in_range (if byte b = 0xE0 then 0xA0 else 0x80)
                    (if byte b = 0xED then 0x9F else 0xBF) c1
           \<and> in_range 0x80 0xBF c2 \<and> utf8_valid r
         | _ \<Rightarrow> False)
      else if in_range 0xF0 0xF4 b then
        (case bs of c1 # c2 # c3 # r \<Rightarrow>
           in_range (if byte b = 0xF0 then 0x90 else 0x80)
                    (if byte b = 0xF4 then 0x8F else 0xBF) c1
           \<and> in_range 0x80 0xBF c2 \<and> in_range 0x80 0xBF c3 \<and> utf8_valid r
         | _ \<Rightarrow> False)
      else False)"

datatype error = IndexError | UnicodeDecodeError | StorageError

definition decode :: "string \<Rightarrow> error + string" where
  "decode bs = (if utf8_valid bs then Inr bs else Inl UnicodeDecodeError)"

section \<open>The Dump Reader: nodes.dmp and names.dmp\<close>

text \<open>
  A Python dict with text keys and text values is a map. A file opened for reading is
  the list of its lines in the order the iteration yields them, each line with its line
  terminator when it has one.
\<close>

type_synonym pydict = "string \<rightharpoonup> string"

text \<open>
  \<^verbatim>\<open>line_list[i]\<close> raises IndexError past the end of the list. The dict display
  of the source evaluates its values in order, so index 1 is read before index 2; index 0
  always exists.
\<close>

definition getitem :: "string list \<Rightarrow> nat \<Rightarrow> error + string" where
  "getitem xs i = (if i < length xs then Inr (xs ! i) else Inl IndexError)"

definition node_dict :: "string \<Rightarrow> error + pydict" where
  "node_dict line =
     (let line_list = py_split pipe line in
      case getitem line_list 0 of Inl e \<Rightarrow> Inl e | Inr f0 \<Rightarrow>
     (case getitem line_list 1 of Inl e \<Rightarrow> Inl e | Inr f1 \<Rightarrow>
     (case getitem line_list 2 of Inl e \<Rightarrow> Inl e | Inr f2 \<Rightarrow>
        Inr [''ncbi_taxid'' \<mapsto> strip tab f0,
             ''parent_taxid'' \<mapsto> strip tab f1,
             ''tax_name'' \<mapsto> [],
             ''lineage_level'' \<mapsto> strip tab f2])))"

definition name_dict :: "string \<Rightarrow> error + pydict" where
  "name_dict line =
     (let line_list = py_split pipe line in
      case getitem line_list 0 of Inl e \<Rightarrow> Inl e | Inr f0 \<Rightarrow>
     (case getitem line_list 1 of Inl e \<Rightarrow> Inl e | Inr f1 \<Rightarrow>
        Inr [''ncbi_taxid'' \<mapsto> strip tab f0,
             ''tax_name'' \<mapsto> strip tab f1]))"

text \<open>The first loop of \<^verbatim>\<open>_parse_taxdump\<close>: one dict per line of nodes.dmp.\<close>

fun parse_nodes :: "string list \<Rightarrow> error + pydict list" where
  "parse_nodes [] = Inr []"
| "parse_nodes (line # f) =
     (case node_dict line of Inl e \<Rightarrow> Inl e
      | Inr data_dict \<Rightarrow>
          (case parse_nodes f of Inl e \<Rightarrow> Inl e
           | Inr nodes_data \<Rightarrow> Inr (data_dict # nodes_data)))"

text \<open>
  The second loop: only the lines of names.dmp that contain the text
  \<^verbatim>\<open>scientific name\<close> give a dict.
\<close>

fun parse_names :: "string list \<Rightarrow> error + pydict list" where
  "parse_names [] = Inr []"
| "parse_names (line # f) =
     (if py_in ''scientific name'' line then
        (case name_dict line of Inl e \<Rightarrow> Inl e
         | Inr data_dict \<Rightarrow>
             (case parse_names f of Inl e \<Rightarrow> Inl e
              | Inr names_data \<Rightarrow> Inr (data_dict # names_data)))
      else parse_names f)"

section \<open>The Taxon Merger\<close>

text \<open>
  \<^verbatim>\<open>{**nodes, **names}\<close> is the dict with the entries of \<open>nodes\<close> overwritten and
  extended by those of \<open>names\<close>; \<^verbatim>\<open>zip\<close> stops at the shorter list.
\<close>

definition merge_dicts :: "pydict list \<Rightarrow> pydict list \<Rightarrow> pydict list" where
  "merge_dicts nodes_data names_data =
     map (\<lambda>(nodes, names). nodes ++ names) (zip nodes_data names_data)"

section \<open>The store\<close>

text \<open>
  The two tables declared by the classes \<^verbatim>\<open>Taxa\<close> and \<^verbatim>\<open>Sequence\<close>. Each has
  the integer primary key \<^verbatim>\<open>primary\<close>, given by the storage engine on insertion, and the
  declared columns, kept as the dict that was inserted. No column other than
  \<^verbatim>\<open>primary\<close> is declared unique.
\<close>

type_synonym row = "nat \<times> pydict"

record db =
  Taxa :: "row list"
  Sequence :: "row list"

text \<open>
  The storage engine is a collaborator: whether it carries out a write (or refuses it:
  disk full, a constraint of its own) is a parameter, asked with the state of the store
  and the records of the statement.
\<close>

type_synonym backend = "db \<Rightarrow> pydict list \<Rightarrow> bool"

definition next_primary :: "row list \<Rightarrow> nat" where
  "next_primary t = Suc (fold max (map fst t) 0)"

fun append_rows :: "row list \<Rightarrow> pydict list \<Rightarrow> row list" where
  "append_rows t [] = t"
| "append_rows t (d # ds) = append_rows (t @ [(next_primary t, d)]) ds"

text \<open>\<^verbatim>\<open>Taxa.insert_many(batch).execute()\<close>: one statement, all of its rows or none.\<close>

definition Taxa_insert_many :: "backend \<Rightarrow> pydict list \<Rightarrow> db \<Rightarrow> error + db" where
  "Taxa_insert_many accepts batch s =
     (if accepts s batch then Inr (s\<lparr>Taxa := append_rows (Taxa s) batch\<rparr>)
      else Inl StorageError)"

text \<open>\<^verbatim>\<open>Sequence.create(**data_dict)\<close>: one row.\<close>

definition Sequence_create :: "backend \<Rightarrow> pydict \<Rightarrow> db \<Rightarrow> error + db" where
  "Sequence_create accepts data_dict s =
     (if accepts s [data_dict]
      then Inr (s\<lparr>Sequence := append_rows (Sequence s) [data_dict]\<rparr>)
      else Inl StorageError)"

text \<open>
  \<^verbatim>\<open>with db.atomic():\<close> around a block. The block returns its outcome and the store
  as its writes left it; the scope commits when the block ends normally and rolls the store
  back to the state at entry when the block raises, and the exception goes on to the caller.
\<close>

definition atomic :: "(db \<Rightarrow> (error + unit) \<times> db) \<Rightarrow> db \<Rightarrow> (error + unit) \<times> db" where
  "atomic body s =
     (case body s of (Inl e, s') \<Rightarrow> (Inl e, s) | (Inr u, s') \<Rightarrow> (Inr u, s'))"

section \<open>Loading the taxa\<close>

text \<open>
  \<^verbatim>\<open>for i in range(0, len(taxa_info_list), 500)\<close> with the slice
  \<^verbatim>\<open>taxa_info_list[i:i+500]\<close>.
\<close>

function insert_batches ::
  "backend \<Rightarrow> pydict list \<Rightarrow> nat \<Rightarrow> db \<Rightarrow> (error + unit) \<times> db" where
  "insert_batches accepts taxa_info_list i s =
     (if i < length taxa_info_list then
        (case Taxa_insert_many accepts (take 500 (drop i taxa_info_list)) s of
           Inl e \<Rightarrow> (Inl e, s)
         | Inr s' \<Rightarrow> insert_batches accepts taxa_info_list (i + 500) s')
      else (Inr (), s))"
  by pat_completeness auto
termination
  by (relation "measure (\<lambda>(accepts, taxa_info_list, i, s). length taxa_info_list - i)") auto

text \<open>
  \<^verbatim>\<open>_parse_taxdump\<close>: the list \<^verbatim>\<open>taxa_info_list\<close> is built from the two files
  before the transaction is opened, so an exception of the parsing leaves the store as it
  was; then the batches are inserted inside \<^verbatim>\<open>db.atomic()\<close>.
\<close>

definition taxa_info_list :: "string list \<Rightarrow> string list \<Rightarrow> error + pydict list" where
  "taxa_info_list nodes_file names_file =
     (case parse_nodes nodes_file of Inl e \<Rightarrow> Inl e
      | Inr nodes_data \<Rightarrow>
          (case parse_names names_file of Inl e \<Rightarrow> Inl e
           | Inr names_data \<Rightarrow> Inr (merge_dicts nodes_data names_data)))"

definition parse_taxdump ::
  "backend \<Rightarrow> string list \<Rightarrow> string list \<Rightarrow> db \<Rightarrow> (error + unit) \<times> db" where
  "parse_taxdump accepts nodes_file names_file s =
     (case taxa_info_list nodes_file names_file of Inl e \<Rightarrow> (Inl e, s)
      | Inr merged \<Rightarrow> atomic (insert_batches accepts merged 0) s)"

section \<open>Loading the accessions\<close>

text \<open>
  The body of the loop of \<^verbatim>\<open>_parse_accession2taxid\<close> on one line of the
  decompressed file, and the loop. On an exception the loop stops with the store as the
  rows created so far left it.
\<close>

definition accession_dict :: "string \<Rightarrow> error + pydict" where
  "accession_dict line =
     (case decode line of Inl e \<Rightarrow> Inl e | Inr decoded \<Rightarrow>
     (let line_list = py_split tab (rstrip nl decoded) in
      case getitem line_list 0 of Inl e \<Rightarrow> Inl e | Inr f0 \<Rightarrow>
     (case getitem line_list 2 of Inl e \<Rightarrow> Inl e | Inr f2 \<Rightarrow>
        Inr [''accession'' \<mapsto> f0, ''taxid'' \<mapsto> f2])))"

fun create_sequences :: "backend \<Rightarrow> string list \<Rightarrow> db \<Rightarrow> (error + unit) \<times> db" where
  "create_sequences accepts [] s = (Inr (), s)"
| "create_sequences accepts (line # f) s =
     (case accession_dict line of Inl e \<Rightarrow> (Inl e, s)
      | Inr data_dict \<Rightarrow>
          (case Sequence_create accepts data_dict s of Inl e \<Rightarrow> (Inl e, s)
           | Inr s' \<Rightarrow> create_sequences accepts f s'))"

text \<open>
  \<^verbatim>\<open>f.readline()\<close> takes the header line away, or nothing when the file has no
  line at all.
\<close>

definition parse_accession2taxid ::
  "backend \<Rightarrow> string list \<Rightarrow> db \<Rightarrow> (error + unit) \<times> db" where
  "parse_accession2taxid accepts acc2taxid s =
     atomic (create_sequences accepts (drop 1 acc2taxid)) s"

section \<open>Inputs of the examples\<close>

text \<open>The node line and the name line of taxon 9, and a name line of taxon 2.\<close>

definition ex_node_line :: string where
  "ex_node_line =
     ''9'' @ [tab] @ ''|'' @ [tab] @ ''1'' @ [tab] @ ''|'' @ [tab] @ ''superkingdom''
       @ [tab] @ ''|''"

definition ex_name_line :: string where
  "ex_name_line =
     ''9'' @ [tab] @ ''|'' @ [tab] @ ''Bacteria'' @ [tab] @ ''|'' @ [tab]
       @ ''scientific name'' @ [tab] @ ''|''"

definition ex_name_line_2 :: string where
  "ex_name_line_2 =
     ''2'' @ [tab] @ ''|'' @ [tab] @ ''Bacteria'' @ [tab] @ ''|'' @ [tab]
       @ ''scientific name'' @ [tab] @ ''|'' @ [nl]"

text \<open>A node line with two fields only.\<close>

definition ex_short_node_line :: string where
  "ex_short_node_line = ''9'' @ [tab] @ ''|'' @ [tab] @ ''1'' @ [nl]"

text \<open>The header and a data line of an accession file, and a data line of two columns.\<close>

definition ex_acc_header :: string where
  "ex_acc_header =
     ''accession'' @ [tab] @ ''accession.version'' @ [tab] @ ''taxid'' @ [tab] @ ''gi''
       @ [nl]"

definition ex_acc_line :: string where
  "ex_acc_line =
     ''AB012345'' @ [tab] @ ''AB012345.1'' @ [tab] @ ''9'' @ [tab] @ ''123456'' @ [nl]"

definition ex_short_acc_line :: string where
  "ex_short_acc_line = ''AB012345'' @ [tab] @ ''AB012345.1'' @ [nl]"

definition empty_db :: db where
  "empty_db = \<lparr>Taxa = [], Sequence = []\<rparr>"

text \<open>A storage engine that carries out every write, and one whose disk is full once
  the table of sequences holds \<open>n\<close> rows.\<close>

definition accept_all :: backend where
  "accept_all s batch = True"

definition full_after :: "nat \<Rightarrow> backend" where
  "full_after n s batch = (length (Sequence s) < n)"

text \<open>A field of a record is non-empty: the key is there and its text is not empty.\<close>

definition nonempty_field :: "pydict \<Rightarrow> string \<Rightarrow> bool" where
  "nonempty_field d k = (case d k of None \<Rightarrow> False | Some v \<Rightarrow> v \<noteq> [])"

text \<open>
  The record of taxon 9 as the merge gives it, the node record and the name record it
  comes from, and the taxon ids of the stored taxa in the order of the rows.
\<close>

definition ex_taxon :: pydict where
  "ex_taxon = [''ncbi_taxid'' \<mapsto> ''9'', ''parent_taxid'' \<mapsto> ''1'',
               ''tax_name'' \<mapsto> ''Bacteria'', ''lineage_level'' \<mapsto> ''superkingdom'']"

definition ex_node_record :: pydict where
  "ex_node_record = [''ncbi_taxid'' \<mapsto> ''9'', ''parent_taxid'' \<mapsto> ''1'',
                     ''tax_name'' \<mapsto> [], ''lineage_level'' \<mapsto> ''superkingdom'']"

definition ex_name_record :: pydict where
  "ex_name_record = [''ncbi_taxid'' \<mapsto> ''9'', ''tax_name'' \<mapsto> ''Bacteria'']"

definition stored_taxids :: "db \<Rightarrow> string option list" where
  "stored_taxids s = map (\<lambda>r. snd r ''ncbi_taxid'') (Taxa s)"

section \<open>Facts about the primitives\<close>

lemma py_split_not_Nil: "py_split sep s \<noteq> []"
  by (induction s) (auto split: list.splits)

section \<open>Facts about the store\<close>

lemma fold_max_ge: "a \<le> fold max xs (a::nat)"
  by (induction xs arbitrary: a) (auto intro: order_trans[OF max.cobounded2])

lemma fold_max_mem: "x \<in> set xs \<Longrightarrow> x \<le> fold max xs (a::nat)"
proof (induction xs arbitrary: a)
  case Nil
  then show ?case by simp
next
  case (Cons y ys)
  show ?case
  proof (cases "x = y")
    case True
    have "y \<le> max y a" by simp
    also have "\<dots> \<le> fold max ys (max y a)" by (rule fold_max_ge)
    finally show ?thesis using True by simp
  next
    case False
    with Cons show ?thesis by simp
  qed
qed

lemma primary_less_next: "r \<in> set t \<Longrightarrow> fst r < next_primary t"
  unfolding next_primary_def using fold_max_mem[of "fst r" "map fst t" 0] by force

lemma append_rows_dicts: "map snd (append_rows t ds) = map snd t @ ds"
  by (induction ds arbitrary: t) simp_all

lemma append_rows_length: "length (append_rows t ds) = length t + length ds"
  by (induction ds arbitrary: t) simp_all

lemma append_rows_keeps: "take (length t) (append_rows t ds) = t"
proof (induction ds arbitrary: t)
  case Nil
  show ?case by simp
next
  case (Cons d ds)
  have "take (length t) (append_rows (t @ [(next_primary t, d)]) ds) =
        take (length t) (take (length (t @ [(next_primary t, d)]))
          (append_rows (t @ [(next_primary t, d)]) ds))"
    by (simp add: min_def)
  also have "\<dots> = take (length t) (t @ [(next_primary t, d)])"
    by (simp only: Cons.IH)
  finally show ?case by simp
qed

lemma append_rows_distinct:
  "distinct (map fst t) \<Longrightarrow> distinct (map fst (append_rows t ds))"
proof (induction ds arbitrary: t)
  case Nil
  then show ?case by simp
next
  case (Cons d ds)
  have "next_primary t \<notin> fst ` set t"
    using primary_less_next[of _ t] by fastforce
  with Cons.prems have "distinct (map fst (t @ [(next_primary t, d)]))" by simp
  then show ?case using Cons.IH by simp
qed

section \<open>Facts about the batched insertion\<close>

declare insert_batches.simps [simp del]

lemma insert_batches_accepted:
  "(\<And>s b. accepts s b) \<Longrightarrow>
   fst (insert_batches accepts xs i s) = Inr () \<and>
   map snd (Taxa (snd (insert_batches accepts xs i s))) = map snd (Taxa s) @ drop i xs \<and>
   Sequence (snd (insert_batches accepts xs i s)) = Sequence s"
proof (induction accepts xs i s rule: insert_batches.induct)
  case (1 accepts xs i s)
  show ?case
  proof (cases "i < length xs")
    case False
    then show ?thesis by (simp add: insert_batches.simps[of accepts xs i s])
  next
    case True
    define s' where "s' = s\<lparr>Taxa := append_rows (Taxa s) (take 500 (drop i xs))\<rparr>"
    have ins: "Taxa_insert_many accepts (take 500 (drop i xs)) s = Inr s'"
      using "1.prems" by (simp add: Taxa_insert_many_def s'_def)
    have step: "insert_batches accepts xs i s = insert_batches accepts xs (i + 500) s'"
      using True ins by (simp add: insert_batches.simps[of accepts xs i s])
    have ih: "fst (insert_batches accepts xs (i + 500) s') = Inr () \<and>
      map snd (Taxa (snd (insert_batches accepts xs (i + 500) s'))) =
        map snd (Taxa s') @ drop (i + 500) xs \<and>
      Sequence (snd (insert_batches accepts xs (i + 500) s')) = Sequence s'"
      using "1.IH"[OF True ins] "1.prems" by blast
    have "take 500 (drop i xs) @ drop (i + 500) xs = drop i xs"
      by (metis add.commute append_take_drop_id drop_drop)
    then show ?thesis
      using ih by (simp add: step s'_def append_rows_dicts)
  qed
qed

lemma insert_batches_distinct:
  "distinct (map fst (Taxa s)) \<Longrightarrow>
   distinct (map fst (Taxa (snd (insert_batches accepts xs i s))))"
proof (induction accepts xs i s rule: insert_batches.induct)
  case (1 accepts xs i s)
  show ?case
  proof (cases "i < length xs \<and> accepts s (take 500 (drop i xs))")
    case False
    then show ?thesis using "1.prems"
      by (auto simp add: insert_batches.simps[of accepts xs i s] Taxa_insert_many_def)
  next
    case True
    define s' where "s' = s\<lparr>Taxa := append_rows (Taxa s) (take 500 (drop i xs))\<rparr>"
    have ins: "Taxa_insert_many accepts (take 500 (drop i xs)) s = Inr s'"
      using True by (simp add: Taxa_insert_many_def s'_def)
    have step: "insert_batches accepts xs i s = insert_batches accepts xs (i + 500) s'"
      using True ins by (simp add: insert_batches.simps[of accepts xs i s])
    have "distinct (map fst (Taxa s'))"
      using "1.prems" by (simp add: s'_def append_rows_distinct)
    then show ?thesis
      using "1.IH"[OF _ ins] True by (simp add: step)
  qed
qed

section \<open>Facts about the accession loop and the transaction scope\<close>

lemmas eval_defs = node_dict_def name_dict_def accession_dict_def getitem_def strip_def
  rstrip_def tab_def pipe_def nl_def decode_def byte_def

lemma accession_dict_ok:
  "utf8_valid l \<Longrightarrow> 3 \<le> length (py_split tab (rstrip nl l)) \<Longrightarrow>
   accession_dict l = Inr [''accession'' \<mapsto> py_split tab (rstrip nl l) ! 0,
                           ''taxid'' \<mapsto> py_split tab (rstrip nl l) ! 2]"
  by (simp add: accession_dict_def decode_def getitem_def Let_def py_split_not_Nil)

lemma create_sequences_accepted:
  "(\<And>s b. accepts s b) \<Longrightarrow> (\<And>l. l \<in> set f \<Longrightarrow> accession_dict l = Inr (g l)) \<Longrightarrow>
   fst (create_sequences accepts f s) = Inr () \<and>
   map snd (Sequence (snd (create_sequences accepts f s))) = map snd (Sequence s) @ map g f \<and>
   Taxa (snd (create_sequences accepts f s)) = Taxa s"
proof (induction f arbitrary: s)
  case Nil
  show ?case by simp
next
  case (Cons line f)
  define s' where "s' = s\<lparr>Sequence := append_rows (Sequence s) [g line]\<rparr>"
  have d: "accession_dict line = Inr (g line)" using Cons.prems(2) by simp
  have c: "Sequence_create accepts (g line) s = Inr s'"
    using Cons.prems(1) by (simp add: Sequence_create_def s'_def)
  have step: "create_sequences accepts (line # f) s = create_sequences accepts f s'"
    by (simp add: d c)
  have "fst (create_sequences accepts f s') = Inr () \<and>
   map snd (Sequence (snd (create_sequences accepts f s'))) = map snd (Sequence s') @ map g f \<and>
   Taxa (snd (create_sequences accepts f s')) = Taxa s'"
    by (rule Cons.IH) (use Cons.prems in auto)
  then show ?case unfolding step by (simp add: s'_def)
qed

lemma atomic_ok: "fst (body s) = Inr () \<Longrightarrow> atomic body s = body s"
  by (cases "body s") (auto simp: atomic_def)

lemma atomic_fails: "fst (body s) = Inl e \<Longrightarrow> atomic body s = (Inl e, s)"
  by (cases "body s") (auto simp: atomic_def)

lemma node_dict_short: "length (py_split pipe l) < 3 \<Longrightarrow> node_dict l = Inl IndexError"
  by (simp add: node_dict_def getitem_def Let_def)

lemma node_dict_error: "node_dict l = Inl e \<Longrightarrow> e = IndexError"
  by (auto simp: node_dict_def getitem_def Let_def split: if_splits)

lemma parse_nodes_short:
  "l \<in> set f \<Longrightarrow> length (py_split pipe l) < 3 \<Longrightarrow> parse_nodes f = Inl IndexError"
proof (induction f)
  case Nil
  then show ?case by simp
next
  case (Cons line f)
  show ?case
  proof (cases "node_dict line")
    case (Inl e)
    then show ?thesis using node_dict_error[OF Inl] by simp
  next
    case (Inr d)
    with Cons.prems node_dict_short have "l \<in> set f" by fastforce
    then show ?thesis using Cons Inr by simp
  qed
qed

lemma accession_dict_short:
  "length (py_split tab (rstrip nl l)) < 3 \<Longrightarrow> \<exists>e. accession_dict l = Inl e"
  by (simp add: accession_dict_def decode_def getitem_def Let_def)

lemma create_sequences_bad_line:
  "l \<in> set f \<Longrightarrow> accession_dict l = Inl e' \<Longrightarrow> \<exists>e. fst (create_sequences accepts f s) = Inl e"
proof (induction f arbitrary: s)
  case Nil
  then show ?case by simp
next
  case (Cons line f)
  show ?case
  proof (cases "accession_dict line")
    case (Inl e)
    then show ?thesis by simp
  next
    case d: (Inr data_dict)
    show ?thesis
    proof (cases "Sequence_create accepts data_dict s")
      case (Inl e)
      then show ?thesis using d by simp
    next
      case (Inr s')
      from Cons.prems d have "l \<in> set f" by auto
      then show ?thesis using Cons.IH[of s'] Cons.prems(2) d Inr by simp
    qed
  qed
qed

section \<open>Facts about the merge\<close>

lemma merge_dicts_length:
  "length (merge_dicts nodes_data names_data) = min (length nodes_data) (length names_data)"
  by (simp add: merge_dicts_def)

lemma merge_dicts_nth:
  "i < length nodes_data \<Longrightarrow> i < length names_data \<Longrightarrow>
   merge_dicts nodes_data names_data ! i = (nodes_data ! i) ++ (names_data ! i)"
  by (simp add: merge_dicts_def)

lemma merge_dicts_field:
  "i < length nodes_data \<Longrightarrow> i < length names_data \<Longrightarrow>
   (merge_dicts nodes_data names_data ! i) k =
     (case (names_data ! i) k of None \<Rightarrow> (nodes_data ! i) k | Some v \<Rightarrow> Some v)"
  by (simp add: merge_dicts_nth map_add_def)

lemma merge_dicts_mem:
  "t \<in> set (merge_dicts nodes_data names_data) \<Longrightarrow>
   \<exists>nodes\<in>set nodes_data. \<exists>names\<in>set names_data. t = nodes ++ names"
  by (auto simp: merge_dicts_def dest: set_zip_leftD set_zip_rightD)

lemma nonempty_field_names:
  "nonempty_field names k \<Longrightarrow> nonempty_field (nodes ++ names) k"
  by (auto simp: nonempty_field_def map_add_def split: option.splits)

lemma nonempty_field_nodes:
  "names k = None \<Longrightarrow> nonempty_field nodes k \<Longrightarrow> nonempty_field (nodes ++ names) k"
  by (auto simp: nonempty_field_def map_add_def split: option.splits)

section \<open>Facts about a whole load of the taxa\<close>

lemma atomic_distinct:
  "distinct (map fst (Taxa s)) \<Longrightarrow> distinct (map fst (Taxa (snd (body s)))) \<Longrightarrow>
   distinct (map fst (Taxa (snd (atomic body s))))"
  by (cases "body s") (auto simp: atomic_def split: sum.splits)

lemma parse_taxdump_distinct:
  "distinct (map fst (Taxa s)) \<Longrightarrow>
   distinct (map fst (Taxa (snd (parse_taxdump accepts nodes_file names_file s))))"
  by (cases "taxa_info_list nodes_file names_file")
     (simp_all add: parse_taxdump_def atomic_distinct insert_batches_distinct)

lemma parse_taxdump_accepted:
  assumes "\<And>s b. accepts s b" and "taxa_info_list nodes_file names_file = Inr merged"
  shows "fst (parse_taxdump accepts nodes_file names_file s) = Inr () \<and>
    map snd (Taxa (snd (parse_taxdump accepts nodes_file names_file s))) =
      map snd (Taxa s) @ merged \<and>
    Sequence (snd (parse_taxdump accepts nodes_file names_file s)) = Sequence s"
proof -
  have a: "fst (insert_batches accepts merged 0 s) = Inr () \<and>
    map snd (Taxa (snd (insert_batches accepts merged 0 s))) =
      map snd (Taxa s) @ drop 0 merged \<and>
    Sequence (snd (insert_batches accepts merged 0 s)) = Sequence s"
    using assms(1) by (rule insert_batches_accepted)
  then have "parse_taxdump accepts nodes_file names_file s = insert_batches accepts merged 0 s"
    by (simp add: parse_taxdump_def assms(2) atomic_ok)
  with a show ?thesis by simp
qed

lemma example_taxa_info_list:
  "taxa_info_list [ex_node_line] [ex_name_line] = Inr [ex_taxon]"
proof -
  have n: "parse_nodes [ex_node_line] = Inr [ex_node_record]"
    by (simp add: ex_node_line_def ex_node_record_def eval_defs)
  have m: "parse_names [ex_name_line] = Inr [ex_name_record]"
    by (simp add: ex_name_line_def ex_name_record_def eval_defs)
  have "ex_node_record ++ ex_name_record = ex_taxon"
    by (rule ext) (simp add: ex_node_record_def ex_name_record_def ex_taxon_def)
  then show ?thesis
    by (simp only: taxa_info_list_def n m merge_dicts_def sum.case zip.simps list.case
        list.map prod.case)
qed

lemma example_repeated_taxa_info_list:
  "taxa_info_list [ex_node_line, ex_node_line] [ex_name_line, ex_name_line] =
     Inr [ex_taxon, ex_taxon]"
proof -
  have n: "parse_nodes [ex_node_line, ex_node_line] = Inr [ex_node_record, ex_node_record]"
    by (simp add: ex_node_line_def ex_node_record_def eval_defs)
  have m: "parse_names [ex_name_line, ex_name_line] = Inr [ex_name_record, ex_name_record]"
    by (simp add: ex_name_line_def ex_name_record_def eval_defs)
  have "ex_node_record ++ ex_name_record = ex_taxon"
    by (rule ext) (simp add: ex_node_record_def ex_name_record_def ex_taxon_def)
  then show ?thesis
    by (simp only: taxa_info_list_def n m merge_dicts_def sum.case zip.simps list.case
        list.map prod.case)
qed

lemma accept_all_accepts: "accept_all s b"
  by (simp add: accept_all_def)

section \<open>The example of the specification\<close>

text \<open>
  Claim C8. The node line of taxon 9 (parent 1, rank superkingdom) and the name line of
  taxon 9 (Bacteria, marked as scientific name) are parsed and merged into exactly one
  record: taxon id 9, parent 1, rank superkingdom, scientific name Bacteria. The record
  is the dict handed to the insertion, whose values are the texts of the fields.
\<close>

theorem C8_example_merge:
  "taxa_info_list [ex_node_line] [ex_name_line] =
     Inr [[''ncbi_taxid'' \<mapsto> ''9'', ''parent_taxid'' \<mapsto> ''1'',
           ''tax_name'' \<mapsto> ''Bacteria'', ''lineage_level'' \<mapsto> ''superkingdom'']]"
proof -
  have n: "parse_nodes [ex_node_line] =
      Inr [[''ncbi_taxid'' \<mapsto> ''9'', ''parent_taxid'' \<mapsto> ''1'',
            ''tax_name'' \<mapsto> [], ''lineage_level'' \<mapsto> ''superkingdom'']]"
    by (simp add: ex_node_line_def eval_defs)
  have m: "parse_names [ex_name_line] =
      Inr [[''ncbi_taxid'' \<mapsto> ''9'', ''tax_name'' \<mapsto> ''Bacteria'']]"
    by (simp add: ex_name_line_def eval_defs)
  have "[''ncbi_taxid'' \<mapsto> ''9'', ''parent_taxid'' \<mapsto> ''1'',
            ''tax_name'' \<mapsto> [], ''lineage_level'' \<mapsto> ''superkingdom'']
        ++ [''ncbi_taxid'' \<mapsto> ''9'', ''tax_name'' \<mapsto> ''Bacteria'']
       = [''ncbi_taxid'' \<mapsto> ''9'', ''parent_taxid'' \<mapsto> ''1'',
           ''tax_name'' \<mapsto> ''Bacteria'', ''lineage_level'' \<mapsto> ''superkingdom'']"
    by (rule ext) simp
  then show ?thesis
    by (simp only: taxa_info_list_def n m merge_dicts_def sum.case zip.simps list.case
        list.map prod.case)
qed

section \<open>The accession parser\<close>

text \<open>
  Claim C10. On an accession file with no line at all, and on one with the header line
  only, \<open>parse_accession2taxid\<close> ends normally and the store is as it was: no record is
  created, whatever the storage engine would do with a write.
\<close>

theorem C10_header_only_or_empty:
  "parse_accession2taxid accepts [] s = (Inr (), s) \<and>
   parse_accession2taxid accepts [header] s = (Inr (), s)"
  by (simp add: parse_accession2taxid_def atomic_def)

text \<open>
  Claim C4. On a file of a header line and N data lines, each of them well-formed UTF-8
  with at least three tab-separated columns, and with a storage engine that carries out
  every write, \<open>parse_accession2taxid\<close> ends normally and has appended exactly N records
  to the table of sequences, one per data line and in their order, the record of a line
  having column 0 as its accession and column 2 as its taxid. The header does not occur
  in the result, and the table of taxa is untouched.
\<close>

theorem C4_accession_records:
  assumes "\<And>s b. accepts s b"
    and "\<And>l. l \<in> set data \<Longrightarrow> utf8_valid l \<and> 3 \<le> length (py_split tab (rstrip nl l))"
  shows "fst (parse_accession2taxid accepts (header # data) s) = Inr () \<and>
    map snd (Sequence (snd (parse_accession2taxid accepts (header # data) s))) =
      map snd (Sequence s) @
      map (\<lambda>l. [''accession'' \<mapsto> py_split tab (rstrip nl l) ! 0,
                 ''taxid'' \<mapsto> py_split tab (rstrip nl l) ! 2]) data \<and>
    length (Sequence (snd (parse_accession2taxid accepts (header # data) s))) =
      length (Sequence s) + length data \<and>
    Taxa (snd (parse_accession2taxid accepts (header # data) s)) = Taxa s"
proof -
  let ?g = "\<lambda>l. [''accession'' \<mapsto> py_split tab (rstrip nl l) ! 0,
                 ''taxid'' \<mapsto> py_split tab (rstrip nl l) ! 2]"
  have body: "fst (create_sequences accepts data s) = Inr () \<and>
    map snd (Sequence (snd (create_sequences accepts data s))) = map snd (Sequence s) @ map ?g data \<and>
    Taxa (snd (create_sequences accepts data s)) = Taxa s"
    by (rule create_sequences_accepted) (use assms in \<open>simp_all add: accession_dict_ok\<close>)
  have eq: "parse_accession2taxid accepts (header # data) s = create_sequences accepts data s"
    using body by (simp add: parse_accession2taxid_def atomic_ok)
  have "length (map snd (Sequence (snd (create_sequences accepts data s)))) =
        length (map snd (Sequence s) @ map ?g data)"
    using body by simp
  then have "length (Sequence (snd (create_sequences accepts data s))) =
        length (Sequence s) + length data" by simp
  then show ?thesis using body by (simp add: eq)
qed

theorem C4_accession_records_witness:
  "fst (parse_accession2taxid accept_all [ex_acc_header, ex_acc_line] empty_db) = Inr () \<and>
   map snd (Sequence (snd (parse_accession2taxid accept_all [ex_acc_header, ex_acc_line] empty_db)))
     = [[''accession'' \<mapsto> ''AB012345'', ''taxid'' \<mapsto> ''9'']]"
proof -
  have a: "\<And>s b. accept_all s b" by (simp add: accept_all_def)
  have cols: "py_split tab (rstrip nl ex_acc_line) = [''AB012345'', ''AB012345.1'', ''9'', ''123456'']"
    by (simp add: ex_acc_line_def eval_defs)
  have v: "utf8_valid ex_acc_line"
    by (simp add: ex_acc_line_def eval_defs)
  have b: "\<And>l. l \<in> set [ex_acc_line] \<Longrightarrow> utf8_valid l \<and> 3 \<le> length (py_split tab (rstrip nl l))"
    using cols v by simp
  show ?thesis
    using C4_accession_records[of accept_all "[ex_acc_line]" ex_acc_header empty_db, OF a b]
    by (simp add: cols empty_db_def)
qed

section \<open>Format errors\<close>

text \<open>
  Claim C5. When some line of the node file splits at the pipe into fewer than three
  fields, \<open>parse_taxdump\<close> fails with IndexError and the store is as it was before
  the call, so no taxon of that call is stored. When some line after the header of an
  accession file splits at the tab into fewer than three columns,
  \<open>parse_accession2taxid\<close> fails and the store is as it was before the call. In both
  cases the line is not skipped: the call does not end normally.
\<close>

theorem C5_format_error_fatal:
  "((\<exists>l\<in>set nodes_file. length (py_split pipe l) < 3) \<longrightarrow>
      parse_taxdump accepts nodes_file names_file s = (Inl IndexError, s)) \<and>
   ((\<exists>l\<in>set (drop 1 acc2taxid). length (py_split tab (rstrip nl l)) < 3) \<longrightarrow>
      (\<exists>e. parse_accession2taxid accepts acc2taxid s = (Inl e, s)))"
proof (intro conjI impI)
  assume "\<exists>l\<in>set nodes_file. length (py_split pipe l) < 3"
  then have "parse_nodes nodes_file = Inl IndexError"
    using parse_nodes_short by blast
  then show "parse_taxdump accepts nodes_file names_file s = (Inl IndexError, s)"
    by (simp add: parse_taxdump_def taxa_info_list_def)
next
  assume "\<exists>l\<in>set (drop 1 acc2taxid). length (py_split tab (rstrip nl l)) < 3"
  then obtain l e' where "l \<in> set (drop 1 acc2taxid)" "accession_dict l = Inl e'"
    using accession_dict_short by blast
  then obtain e where "fst (create_sequences accepts (drop 1 acc2taxid) s) = Inl e"
    using create_sequences_bad_line by blast
  then have "parse_accession2taxid accepts acc2taxid s = (Inl e, s)"
    by (simp add: parse_accession2taxid_def atomic_fails)
  then show "\<exists>e. parse_accession2taxid accepts acc2taxid s = (Inl e, s)" ..
qed

theorem C5_format_error_fatal_witness:
  "(\<exists>l\<in>set [ex_node_line, ex_short_node_line]. length (py_split pipe l) < 3) \<and>
   parse_taxdump accept_all [ex_node_line, ex_short_node_line] [ex_name_line, ex_name_line] empty_db
     = (Inl IndexError, empty_db) \<and>
   (\<exists>l\<in>set (drop 1 [ex_acc_header, ex_acc_line, ex_short_acc_line]).
       length (py_split tab (rstrip nl l)) < 3) \<and>
   (\<exists>e. parse_accession2taxid accept_all [ex_acc_header, ex_acc_line, ex_short_acc_line] empty_db
     = (Inl e, empty_db))"
proof -
  have n: "length (py_split pipe ex_short_node_line) < 3"
    by (simp add: ex_short_node_line_def eval_defs)
  have a: "length (py_split tab (rstrip nl ex_short_acc_line)) < 3"
    by (simp add: ex_short_acc_line_def eval_defs)
  have hn: "\<exists>l\<in>set [ex_node_line, ex_short_node_line]. length (py_split pipe l) < 3"
    using n by simp
  have ha: "\<exists>l\<in>set (drop 1 [ex_acc_header, ex_acc_line, ex_short_acc_line]).
       length (py_split tab (rstrip nl l)) < 3"
    using a by simp
  show ?thesis
    using C5_format_error_fatal[of "[ex_node_line, ex_short_node_line]" accept_all "[ex_name_line, ex_name_line]"
        empty_db "[ex_acc_header, ex_acc_line, ex_short_acc_line]"] hn ha
    by blast
qed

section \<open>Atomicity of an accession load\<close>

text \<open>
  Claim C7. When a call of \<open>parse_accession2taxid\<close> fails, for whatever reason and at
  whatever line (the storage engine refusing a write, or a line that cannot be parsed),
  the store after the call is the store before it: none of the rows the call had already
  created is left, and the rows of earlier calls are all there.
\<close>

theorem C7_accession_load_atomic:
  "fst (parse_accession2taxid accepts acc2taxid s) = Inl e \<Longrightarrow>
   snd (parse_accession2taxid accepts acc2taxid s) = s"
  by (auto simp: parse_accession2taxid_def atomic_def split: prod.splits sum.splits)

text \<open>
  The witness: a first load of one record succeeds; in the second load the engine's disk
  is full after the first of two records. The loop by itself would leave that record in
  the table; the call leaves the store of the first load.
\<close>

theorem C7_accession_load_atomic_witness:
  "fst (parse_accession2taxid (full_after 2) [ex_acc_header, ex_acc_line, ex_acc_line]
          (snd (parse_accession2taxid (full_after 2) [ex_acc_header, ex_acc_line] empty_db)))
     = Inl StorageError \<and>
   snd (parse_accession2taxid (full_after 2) [ex_acc_header, ex_acc_line, ex_acc_line]
          (snd (parse_accession2taxid (full_after 2) [ex_acc_header, ex_acc_line] empty_db)))
     = snd (parse_accession2taxid (full_after 2) [ex_acc_header, ex_acc_line] empty_db) \<and>
   length (Sequence (snd (parse_accession2taxid (full_after 2)
          [ex_acc_header, ex_acc_line] empty_db))) = 1 \<and>
   length (Sequence (snd (create_sequences (full_after 2) [ex_acc_line, ex_acc_line]
          (snd (parse_accession2taxid (full_after 2) [ex_acc_header, ex_acc_line] empty_db)))))
     = 2"
proof -
  have d: "accession_dict ex_acc_line = Inr [''accession'' \<mapsto> ''AB012345'', ''taxid'' \<mapsto> ''9'']"
    by (simp add: ex_acc_line_def eval_defs)
  have first: "parse_accession2taxid (full_after 2) [ex_acc_header, ex_acc_line] empty_db =
      (Inr (), \<lparr>Taxa = [], Sequence = [(1, [''accession'' \<mapsto> ''AB012345'', ''taxid'' \<mapsto> ''9''])]\<rparr>)"
    by (simp add: parse_accession2taxid_def atomic_def d Sequence_create_def full_after_def
        empty_db_def next_primary_def)
  have body: "create_sequences (full_after 2) [ex_acc_line, ex_acc_line]
      \<lparr>Taxa = [], Sequence = [(1, [''accession'' \<mapsto> ''AB012345'', ''taxid'' \<mapsto> ''9''])]\<rparr> =
      (Inl StorageError,
       \<lparr>Taxa = [], Sequence = [(1, [''accession'' \<mapsto> ''AB012345'', ''taxid'' \<mapsto> ''9'']),
                                (2, [''accession'' \<mapsto> ''AB012345'', ''taxid'' \<mapsto> ''9''])]\<rparr>)"
    by (simp add: d Sequence_create_def full_after_def next_primary_def)
  have fails: "fst (parse_accession2taxid (full_after 2)
      [ex_acc_header, ex_acc_line, ex_acc_line]
      (snd (parse_accession2taxid (full_after 2) [ex_acc_header, ex_acc_line] empty_db)))
      = Inl StorageError"
    unfolding first snd_conv
    by (simp add: parse_accession2taxid_def atomic_def d Sequence_create_def full_after_def
        next_primary_def)
  show ?thesis
    using fails C7_accession_load_atomic[OF fails] unfolding first snd_conv body by simp
qed

section \<open>The merge of node and name records\<close>

text \<open>
  Claim C2. The merge of a list of node records and a list of name records is never
  longer than the shorter of the two. When both have length N, every node record has a
  non-empty taxon id, parent id and rank, and every name record has a non-empty taxon id
  (and, as the reader builds it, neither a parent id nor a rank), the merge has exactly N
  records and each has a non-empty taxon id, parent id and rank.
\<close>

theorem C2_merge_length_and_fields:
  "length (merge_dicts nodes_data names_data) \<le> min (length nodes_data) (length names_data) \<and>
   (length nodes_data = N \<and> length names_data = N \<and>
    (\<forall>nodes\<in>set nodes_data. nonempty_field nodes ''ncbi_taxid'' \<and>
        nonempty_field nodes ''parent_taxid'' \<and> nonempty_field nodes ''lineage_level'') \<and>
    (\<forall>names\<in>set names_data. nonempty_field names ''ncbi_taxid'' \<and>
        names ''parent_taxid'' = None \<and> names ''lineage_level'' = None)
    \<longrightarrow> length (merge_dicts nodes_data names_data) = N \<and>
        (\<forall>t\<in>set (merge_dicts nodes_data names_data). nonempty_field t ''ncbi_taxid'' \<and>
            nonempty_field t ''parent_taxid'' \<and> nonempty_field t ''lineage_level''))"
proof (intro conjI impI)
  show "length (merge_dicts nodes_data names_data) \<le> min (length nodes_data) (length names_data)"
    by (simp add: merge_dicts_length)
next
  assume h: "length nodes_data = N \<and> length names_data = N \<and>
    (\<forall>nodes\<in>set nodes_data. nonempty_field nodes ''ncbi_taxid'' \<and>
        nonempty_field nodes ''parent_taxid'' \<and> nonempty_field nodes ''lineage_level'') \<and>
    (\<forall>names\<in>set names_data. nonempty_field names ''ncbi_taxid'' \<and>
        names ''parent_taxid'' = None \<and> names ''lineage_level'' = None)"
  then show "length (merge_dicts nodes_data names_data) = N"
    by (simp add: merge_dicts_length)
  show "\<forall>t\<in>set (merge_dicts nodes_data names_data). nonempty_field t ''ncbi_taxid'' \<and>
            nonempty_field t ''parent_taxid'' \<and> nonempty_field t ''lineage_level''"
  proof
    fix t
    assume "t \<in> set (merge_dicts nodes_data names_data)"
    then obtain nodes names where
      nm: "nodes \<in> set nodes_data" "names \<in> set names_data" and t: "t = nodes ++ names"
      using merge_dicts_mem by blast
    from h nm have
      "nonempty_field names ''ncbi_taxid''"
      "names ''parent_taxid'' = None" "nonempty_field nodes ''parent_taxid''"
      "names ''lineage_level'' = None" "nonempty_field nodes ''lineage_level''"
      by blast+
    then show "nonempty_field t ''ncbi_taxid'' \<and>
            nonempty_field t ''parent_taxid'' \<and> nonempty_field t ''lineage_level''"
      unfolding t by (intro conjI nonempty_field_names nonempty_field_nodes)
  qed
qed

theorem C2_merge_length_and_fields_witness:
  "length (merge_dicts [ex_node_record] [ex_name_record]) = 1 \<and>
   nonempty_field (merge_dicts [ex_node_record] [ex_name_record] ! 0) ''ncbi_taxid'' \<and>
   nonempty_field (merge_dicts [ex_node_record] [ex_name_record] ! 0) ''parent_taxid'' \<and>
   nonempty_field (merge_dicts [ex_node_record] [ex_name_record] ! 0) ''lineage_level''"
proof -
  have n: "nonempty_field ex_node_record ''ncbi_taxid'' \<and>
      nonempty_field ex_node_record ''parent_taxid'' \<and>
      nonempty_field ex_node_record ''lineage_level''"
    by (simp add: nonempty_field_def ex_node_record_def)
  have m: "nonempty_field ex_name_record ''ncbi_taxid'' \<and>
      ex_name_record ''parent_taxid'' = None \<and> ex_name_record ''lineage_level'' = None"
    by (simp add: nonempty_field_def ex_name_record_def)
  have "length (merge_dicts [ex_node_record] [ex_name_record]) = 1 \<and>
        (\<forall>t\<in>set (merge_dicts [ex_node_record] [ex_name_record]).
            nonempty_field t ''ncbi_taxid'' \<and> nonempty_field t ''parent_taxid'' \<and>
            nonempty_field t ''lineage_level'')"
    using C2_merge_length_and_fields[of "[ex_node_record]" "[ex_name_record]" 1] n m by simp
  moreover have "merge_dicts [ex_node_record] [ex_name_record] ! 0
      \<in> set (merge_dicts [ex_node_record] [ex_name_record])"
    by (simp add: merge_dicts_def)
  ultimately show ?thesis by blast
qed

text \<open>
  Claim C1. The node line of taxon 9 and, at the same position of the name file, the
  scientific name line of taxon 2: both records carry the key \<open>ncbi_taxid\<close>, so the
  merge overwrites it, and the merged record has the taxon id 2 of the name record with
  the parent id and the rank of node 9. The docstring of the table says the taxon id of a
  row is the one from nodes.dmp.
\<close>

theorem C1_misaligned_taxid_from_names:
  "parse_nodes [ex_node_line] = Inr [ex_node_record] \<and>
   parse_names [ex_name_line_2] =
     Inr [[''ncbi_taxid'' \<mapsto> ''2'', ''tax_name'' \<mapsto> ''Bacteria'']] \<and>
   taxa_info_list [ex_node_line] [ex_name_line_2] =
     Inr [[''ncbi_taxid'' \<mapsto> ''2'', ''parent_taxid'' \<mapsto> ''1'',
           ''tax_name'' \<mapsto> ''Bacteria'', ''lineage_level'' \<mapsto> ''superkingdom'']]"
proof -
  have n: "parse_nodes [ex_node_line] = Inr [ex_node_record]"
    by (simp add: ex_node_line_def ex_node_record_def eval_defs)
  have m: "parse_names [ex_name_line_2] =
      Inr [[''ncbi_taxid'' \<mapsto> ''2'', ''tax_name'' \<mapsto> ''Bacteria'']]"
    by (simp add: ex_name_line_2_def eval_defs)
  have "ex_node_record ++ [''ncbi_taxid'' \<mapsto> ''2'', ''tax_name'' \<mapsto> ''Bacteria'']
       = [''ncbi_taxid'' \<mapsto> ''2'', ''parent_taxid'' \<mapsto> ''1'',
           ''tax_name'' \<mapsto> ''Bacteria'', ''lineage_level'' \<mapsto> ''superkingdom'']"
    by (rule ext) (simp add: ex_node_record_def)
  then have "taxa_info_list [ex_node_line] [ex_name_line_2] =
     Inr [[''ncbi_taxid'' \<mapsto> ''2'', ''parent_taxid'' \<mapsto> ''1'',
           ''tax_name'' \<mapsto> ''Bacteria'', ''lineage_level'' \<mapsto> ''superkingdom'']]"
    by (simp only: taxa_info_list_def n m merge_dicts_def sum.case zip.simps list.case
        list.map prod.case)
  with n m show ?thesis by simp
qed

section \<open>The batched insertion\<close>

text \<open>
  Claim C6. With a storage engine that carries out every write, the loop over the slices
  of 500 ends normally and appends the records of the list to the table of taxa, each one
  exactly once and in the order of the list, whatever the length of the list: the number
  of rows grows by that length. The witness is a list of 1234 records.
\<close>

theorem C6_batches_insert_each_once:
  assumes "\<And>s b. accepts s b"
  shows "fst (insert_batches accepts records 0 s) = Inr () \<and>
    map snd (Taxa (snd (insert_batches accepts records 0 s))) =
      map snd (Taxa s) @ records \<and>
    length (Taxa (snd (insert_batches accepts records 0 s))) =
      length (Taxa s) + length records"
proof -
  have a: "fst (insert_batches accepts records 0 s) = Inr () \<and>
    map snd (Taxa (snd (insert_batches accepts records 0 s))) =
      map snd (Taxa s) @ drop 0 records \<and>
    Sequence (snd (insert_batches accepts records 0 s)) = Sequence s"
    using assms by (rule insert_batches_accepted)
  have "length (map snd (Taxa (snd (insert_batches accepts records 0 s)))) =
      length (map snd (Taxa s) @ drop 0 records)"
    using a by (simp only:)
  then have "length (Taxa (snd (insert_batches accepts records 0 s))) =
      length (Taxa s) + length records"
    by simp
  with a show ?thesis by simp
qed

theorem C6_batches_insert_each_once_witness:
  "fst (insert_batches accept_all (replicate 1234 ex_taxon) 0 empty_db) = Inr () \<and>
   length (Taxa (snd (insert_batches accept_all (replicate 1234 ex_taxon) 0 empty_db))) = 1234"
proof -
  have a: "\<And>s b. accept_all s b" by (simp add: accept_all_def)
  show ?thesis
    using C6_batches_insert_each_once[of accept_all "replicate 1234 ex_taxon" empty_db, OF a]
    by (simp add: empty_db_def)
qed

section \<open>Loading the same taxa twice\<close>

text \<open>
  Claim C3, as stated, fails: the primary key of the table of taxa is the column
  \<open>primary\<close>, no constraint is declared on \<open>ncbi_taxid\<close> and the code has no guard,
  so a second load of the same two files is not rejected and the store then holds two rows
  of taxon 9. A single load of files that list taxon 9 twice stores two rows of it as well.
\<close>

theorem C3_reload_duplicates_counterexample:
  "fst (parse_taxdump accept_all [ex_node_line] [ex_name_line]
          (snd (parse_taxdump accept_all [ex_node_line] [ex_name_line] empty_db))) = Inr () \<and>
   stored_taxids (snd (parse_taxdump accept_all [ex_node_line] [ex_name_line]
          (snd (parse_taxdump accept_all [ex_node_line] [ex_name_line] empty_db))))
     = [Some ''9'', Some ''9''] \<and>
   fst (parse_taxdump accept_all [ex_node_line, ex_node_line] [ex_name_line, ex_name_line]
          empty_db) = Inr () \<and>
   stored_taxids (snd (parse_taxdump accept_all [ex_node_line, ex_node_line]
          [ex_name_line, ex_name_line] empty_db))
     = [Some ''9'', Some ''9'']"
proof -
  let ?s1 = "snd (parse_taxdump accept_all [ex_node_line] [ex_name_line] empty_db)"
  let ?s2 = "snd (parse_taxdump accept_all [ex_node_line] [ex_name_line] ?s1)"
  have one: "map snd (Taxa ?s1) = [ex_taxon]"
    using parse_taxdump_accepted[OF accept_all_accepts example_taxa_info_list, where s = empty_db]
    by (simp add: empty_db_def)
  have two: "fst (parse_taxdump accept_all [ex_node_line] [ex_name_line] ?s1) = Inr () \<and>
      map snd (Taxa ?s2) = [ex_taxon, ex_taxon]"
    using parse_taxdump_accepted[OF accept_all_accepts example_taxa_info_list, where s = "?s1"]
    by (simp add: one)
  have "stored_taxids ?s2 = map (\<lambda>d. d ''ncbi_taxid'') (map snd (Taxa ?s2))"
    by (simp add: stored_taxids_def)
  also have "\<dots> = [Some ''9'', Some ''9'']"
    by (simp add: two ex_taxon_def)
  finally have twice: "stored_taxids ?s2 = [Some ''9'', Some ''9'']" .
  let ?r = "parse_taxdump accept_all [ex_node_line, ex_node_line]
      [ex_name_line, ex_name_line] empty_db"
  have rep: "fst ?r = Inr () \<and> map snd (Taxa (snd ?r)) = [ex_taxon, ex_taxon]"
    using parse_taxdump_accepted[OF accept_all_accepts example_repeated_taxa_info_list,
        where s = empty_db]
    by (simp add: empty_db_def)
  have "stored_taxids (snd ?r) = map (\<lambda>d. d ''ncbi_taxid'') (map snd (Taxa (snd ?r)))"
    by (simp add: stored_taxids_def)
  also have "\<dots> = [Some ''9'', Some ''9'']"
    by (simp add: rep ex_taxon_def)
  finally show ?thesis using two twice rep by simp
qed

text \<open>
  Claim C3, amended. A load never breaks the uniqueness of the primary key \<open>primary\<close>
  among the stored taxa; and when the storage engine carries out every write, loading the
  same files twice ends normally both times and appends the merged records twice, so each
  taxon id of the input is then stored twice.
\<close>

theorem C3_reload_appends:
  "(distinct (map fst (Taxa s)) \<longrightarrow>
      distinct (map fst (Taxa (snd (parse_taxdump accepts nodes_file names_file s))))) \<and>
   ((\<forall>s b. accepts s b) \<and> taxa_info_list nodes_file names_file = Inr merged \<longrightarrow>
      fst (parse_taxdump accepts nodes_file names_file
            (snd (parse_taxdump accepts nodes_file names_file s))) = Inr () \<and>
      map snd (Taxa (snd (parse_taxdump accepts nodes_file names_file
            (snd (parse_taxdump accepts nodes_file names_file s))))) =
        map snd (Taxa s) @ merged @ merged)"
proof (intro conjI impI)
  assume "distinct (map fst (Taxa s))"
  then show "distinct (map fst (Taxa (snd (parse_taxdump accepts nodes_file names_file s))))"
    by (rule parse_taxdump_distinct)
next
  assume h: "(\<forall>s b. accepts s b) \<and> taxa_info_list nodes_file names_file = Inr merged"
  then have a: "\<And>s b. accepts s b" and m: "taxa_info_list nodes_file names_file = Inr merged"
    by blast+
  let ?s1 = "snd (parse_taxdump accepts nodes_file names_file s)"
  have one: "map snd (Taxa ?s1) = map snd (Taxa s) @ merged"
    using parse_taxdump_accepted[OF a m, where s = s] by simp
  show "fst (parse_taxdump accepts nodes_file names_file ?s1) = Inr ()"
    using parse_taxdump_accepted[OF a m, where s = "?s1"] by simp
  show "map snd (Taxa (snd (parse_taxdump accepts nodes_file names_file ?s1))) =
        map snd (Taxa s) @ merged @ merged"
    using parse_taxdump_accepted[OF a m, where s = "?s1"] by (simp add: one)
qed

theorem C3_reload_appends_witness:
  "distinct (map fst (Taxa empty_db)) \<and>
   distinct (map fst (Taxa (snd (parse_taxdump accept_all [ex_node_line] [ex_name_line]
      empty_db)))) \<and>
   fst (parse_taxdump accept_all [ex_node_line] [ex_name_line]
      (snd (parse_taxdump accept_all [ex_node_line] [ex_name_line] empty_db))) = Inr () \<and>
   map snd (Taxa (snd (parse_taxdump accept_all [ex_node_line] [ex_name_line]
      (snd (parse_taxdump accept_all [ex_node_line] [ex_name_line] empty_db)))))
     = [ex_taxon, ex_taxon]"
proof -
  have d: "distinct (map fst (Taxa empty_db))" by (simp add: empty_db_def)
  have h: "(\<forall>s b. accept_all s b) \<and>
      taxa_info_list [ex_node_line] [ex_name_line] = Inr [ex_taxon]"
    using accept_all_accepts example_taxa_info_list by simp
  show ?thesis
    using C3_reload_appends[of empty_db accept_all "[ex_node_line]" "[ex_name_line]" "[ex_taxon]"] d h
    by (simp add: empty_db_def)
qed

end
